theory Spec2Isabelle
  imports Complex_Main
begin

section \<open>Python values and the operations the analyzer applies to them\<close>

text \<open>
  The analyzer works on trees returned by \<open>json.load\<close> and by a TOML reader. They are
  dynamically typed, and the code applies \<open>in\<close>, subscripting, \<open>.get\<close>, \<open>.keys()\<close>,
  \<open>.items()\<close> and iteration to them without checking their type first, so every one of
  these operations is modelled with the exception Python raises on a value of the wrong
  type.

  A dictionary is the list of its items in insertion order (its keys are distinct).
  A number is its exact value: Python compares \<open>int\<close> and \<open>float\<close> by value, and no
  operation of the analyzer tells the two apart. The non-finite floats are left out.
  A character is a code point below 256.
\<close>

datatype pyval =
    PNone
  | PBool bool
  | PNum rat
  | PStr string
  | PList "pyval list"
  | PDict "(string \<times> pyval) list"

text \<open>
  The exceptions that occur, by class. \<open>OSError\<close> stands for the class with its
  subclasses (\<open>PermissionError\<close>, \<open>FileNotFoundError\<close>, ...). \<open>JSONDecodeError\<close> and
  \<open>UnicodeDecodeError\<close> are two unrelated subclasses of \<open>ValueError\<close>.
\<close>

datatype error =
    TypeError | AttributeError | KeyError | IndexError
  | OSError | JSONDecodeError | UnicodeDecodeError | RecursionError

definition ebind :: "error + 'a \<Rightarrow> ('a \<Rightarrow> error + 'b) \<Rightarrow> error + 'b" where
  "ebind m f = (case m of Inl e \<Rightarrow> Inl e | Inr x \<Rightarrow> f x)"

text \<open>A \<open>for\<close> loop whose body may raise: the first exception ends the loop.\<close>

fun foldE :: "('a \<Rightarrow> 's \<Rightarrow> error + 's) \<Rightarrow> 'a list \<Rightarrow> 's \<Rightarrow> error + 's" where
  "foldE f [] s = Inr s"
| "foldE f (x # xs) s = (case f x s of Inl e \<Rightarrow> Inl e | Inr s' \<Rightarrow> foldE f xs s')"

text \<open>Truth value of an object (\<open>if x:\<close>).\<close>

fun truthy :: "pyval \<Rightarrow> bool" where
  "truthy PNone = False"
| "truthy (PBool b) = b"
| "truthy (PNum n) = (n \<noteq> 0)"
| "truthy (PStr s) = (s \<noteq> [])"
| "truthy (PList xs) = (xs \<noteq> [])"
| "truthy (PDict kvs) = (kvs \<noteq> [])"

text \<open>
  Python's \<open>==\<close> on these values: \<open>True == 1\<close> and \<open>False == 0\<close>, lists are compared
  element by element, dictionaries as unordered mappings.
\<close>

fun py_eq :: "pyval \<Rightarrow> pyval \<Rightarrow> bool" where
  "py_eq PNone y = (y = PNone)"
| "py_eq (PBool a) y =
     (case y of PBool b \<Rightarrow> a = b | PNum n \<Rightarrow> n = of_bool a | _ \<Rightarrow> False)"
| "py_eq (PNum m) y =
     (case y of PBool b \<Rightarrow> m = of_bool b | PNum n \<Rightarrow> m = n | _ \<Rightarrow> False)"
| "py_eq (PStr s) y = (y = PStr s)"
| "py_eq (PList xs) y =
     (case y of PList ys \<Rightarrow> list_all2 py_eq xs ys | _ \<Rightarrow> False)"
| "py_eq (PDict kvs) y =
     (case y of
        PDict kvs' \<Rightarrow>
          length kvs = length kvs' \<and>
          list_all (\<lambda>(k, v). case map_of kvs' k of None \<Rightarrow> False | Some v' \<Rightarrow> py_eq v v') kvs
      | _ \<Rightarrow> False)"

text \<open>\<open>x in xs\<close> for a list \<open>xs\<close>.\<close>

definition list_contains :: "pyval list \<Rightarrow> pyval \<Rightarrow> bool" where
  "list_contains xs x = list_ex (\<lambda>y. py_eq x y) xs"

definition startswith :: "string \<Rightarrow> string \<Rightarrow> bool" where
  "startswith s pre = (take (length pre) s = pre)"

text \<open>\<open>sub in s\<close> for two strings: \<open>sub\<close> occurs in \<open>s\<close> as a contiguous run.\<close>

fun str_contains :: "string \<Rightarrow> string \<Rightarrow> bool" where
  "str_contains [] sub = (sub = [])"
| "str_contains (c # cs) sub = (startswith (c # cs) sub \<or> str_contains cs sub)"

text \<open>\<open>k in v\<close> for a string \<open>k\<close>.\<close>

fun py_in :: "string \<Rightarrow> pyval \<Rightarrow> error + bool" where
  "py_in k (PDict kvs) = Inr (k \<in> set (map fst kvs))"
| "py_in k (PList xs) = Inr (list_contains xs (PStr k))"
| "py_in k (PStr s) = Inr (str_contains s k)"
| "py_in k _ = Inl TypeError"

text \<open>\<open>v[k]\<close> for a string \<open>k\<close>: only a dictionary can be subscripted by a string.\<close>

fun py_getitem :: "pyval \<Rightarrow> string \<Rightarrow> error + pyval" where
  "py_getitem (PDict kvs) k = (case map_of kvs k of None \<Rightarrow> Inl KeyError | Some v \<Rightarrow> Inr v)"
| "py_getitem _ k = Inl TypeError"

text \<open>\<open>v.get(k, d)\<close>, \<open>v.keys()\<close> and \<open>v.items()\<close>: methods of dictionaries only.\<close>

fun py_get :: "pyval \<Rightarrow> string \<Rightarrow> pyval \<Rightarrow> error + pyval" where
  "py_get (PDict kvs) k d = (case map_of kvs k of None \<Rightarrow> Inr d | Some v \<Rightarrow> Inr v)"
| "py_get _ k d = Inl AttributeError"

fun py_keys :: "pyval \<Rightarrow> error + string list" where
  "py_keys (PDict kvs) = Inr (map fst kvs)"
| "py_keys _ = Inl AttributeError"

fun py_items :: "pyval \<Rightarrow> error + (string \<times> pyval) list" where
  "py_items (PDict kvs) = Inr kvs"
| "py_items _ = Inl AttributeError"

text \<open>
  \<open>for x in v\<close>: a list gives its elements, a string its characters, a dictionary its
  keys; nothing else is iterable.
\<close>

fun py_iter :: "pyval \<Rightarrow> error + pyval list" where
  "py_iter (PList xs) = Inr xs"
| "py_iter (PStr s) = Inr (map (\<lambda>c. PStr [c]) s)"
| "py_iter (PDict kvs) = Inr (map (\<lambda>kv. PStr (fst kv)) kvs)"
| "py_iter _ = Inl TypeError"

subsection \<open>Strings\<close>

text \<open>
  \<open>str.isspace\<close>, which is also what \<open>\s\<close>, \<open>str.split()\<close> and \<open>str.strip()\<close> use:
  below 256 the white space is \<open>\t \n \v \f \r\<close>, the separators 0x1C to 0x1F, the
  space, 0x85 and 0xA0.
\<close>

definition isspace :: "char \<Rightarrow> bool" where
  "isspace c = (c \<in> set [CHR 0x09, CHR 0x0A, CHR 0x0B, CHR 0x0C, CHR 0x0D,
                         CHR 0x1C, CHR 0x1D, CHR 0x1E, CHR 0x1F, CHR 0x20,
                         CHR 0x85, CHR 0xA0])"

text \<open>\<open>s.split()\<close>: the maximal runs of characters that are not white space.\<close>

fun split_acc :: "string \<Rightarrow> string \<Rightarrow> string list" where
  "split_acc w [] = (if w = [] then [] else [w])"
| "split_acc w (c # cs) =
     (if isspace c then (if w = [] then split_acc [] cs else w # split_acc [] cs)
      else split_acc (w @ [c]) cs)"

definition py_split :: "string \<Rightarrow> string list" where
  "py_split s = split_acc [] s"

definition py_strip :: "string \<Rightarrow> string" where
  "py_strip s = rev (dropWhile isspace (rev (dropWhile isspace s)))"

text \<open>
  \<open>s.splitlines()\<close>: a line ends at \<open>\n\<close>, \<open>\r\<close>, \<open>\r\n\<close>, \<open>\v\<close>, \<open>\f\<close>, 0x1C, 0x1D,
  0x1E or 0x85; the line ends are dropped, and a text that ends with one has no empty
  last line.
\<close>

definition linebreak :: "char \<Rightarrow> bool" where
  "linebreak c = (c \<in> set [CHR 0x0A, CHR 0x0B, CHR 0x0C, CHR 0x0D,
                           CHR 0x1C, CHR 0x1D, CHR 0x1E, CHR 0x85])"

fun lines_acc :: "string \<Rightarrow> string \<Rightarrow> string list" where
  "lines_acc l [] = (if l = [] then [] else [l])"
| "lines_acc l [c] = (if linebreak c then [l] else [l @ [c]])"
| "lines_acc l (c # d # cs) =
     (if c = CHR 0x0D \<and> d = CHR 0x0A then l # lines_acc [] cs
      else if linebreak c then l # lines_acc [] (d # cs)
      else lines_acc (l @ [c]) (d # cs))"

definition splitlines :: "string \<Rightarrow> string list" where
  "splitlines s = lines_acc [] s"

section \<open>The project directory as the analyzer reads it\<close>

text \<open>
  The analyzer reads the project through a configuration reader that is not part of the
  analyzed sources; what the reader returns for each file is therefore an input:
  \<open>read_json\<close> and \<open>read_toml\<close> return the parsed tree or \<open>None\<close>, \<open>read_text\<close> the
  text or \<open>None\<close>, \<open>glob_files\<close> the matching paths, of which only the file names are
  used.

  The security defaults file is read by the analyzer itself, with three library calls
  whose outcome is an input as well:
  \<^item> \<open>defaults_path.exists()\<close> returns \<open>False\<close>, returns \<open>True\<close>, or re-raises the
    \<open>OSError\<close> of the underlying \<open>stat\<close> when it does not mean that the path is missing
    (a \<open>PermissionError\<close> on the directory);
  \<^item> \<open>open(defaults_path, encoding="utf-8")\<close> and \<open>json.load(f)\<close> return the parsed
    tree or raise: \<open>OSError\<close> when the file cannot be opened or read,
    \<open>UnicodeDecodeError\<close> when its bytes are not UTF-8 (a text cut off inside a
    multi-byte character is such a file), \<open>JSONDecodeError\<close> when the decoded text is
    not JSON, \<open>RecursionError\<close> when the text nests too deeply.
\<close>

datatype defaults_file =
    ExistsRaises
  | Absent
  | LoadRaises error
  | Parsed pyval

record project =
  package_json :: "pyval option"
  makefile_exists :: bool
  makefile_text :: "string option"
  pyproject_toml :: "pyval option"
  sh_files :: "string list"
  bash_files :: "string list"
  allowlist_text :: "string option"
  security_defaults :: defaults_file

text \<open>The script catalog, with the fields the analyzer writes, and the analyzer's state.\<close>

record CustomScripts =
  npm_scripts :: "string list"
  make_targets :: "pyval list"
  poetry_scripts :: "string list"
  shell_scripts :: "string list"
  mise_tasks :: "pyval list"

record analyzer =
  custom_scripts :: CustomScripts
  script_commands :: "string set"
  custom_commands :: "string set"

definition init :: analyzer where
  "init = \<lparr>custom_scripts = \<lparr>npm_scripts = [], make_targets = [], poetry_scripts = [],
                               shell_scripts = [], mise_tasks = []\<rparr>,
           script_commands = {}, custom_commands = {}\<rparr>"

definition add_script_command :: "string \<Rightarrow> analyzer \<Rightarrow> analyzer" where
  "add_script_command c st = st\<lparr>script_commands := insert c (script_commands st)\<rparr>"

definition add_custom_command :: "string \<Rightarrow> analyzer \<Rightarrow> analyzer" where
  "add_custom_command c st = st\<lparr>custom_commands := insert c (custom_commands st)\<rparr>"

section \<open>The detectors\<close>

subsection \<open>package.json\<close>

definition add_launchers :: "analyzer \<Rightarrow> analyzer" where
  "add_launchers st =
     add_script_command ''bun'' (add_script_command ''pnpm''
       (add_script_command ''yarn'' (add_script_command ''npm'' st)))"

definition set_npm_scripts :: "string list \<Rightarrow> analyzer \<Rightarrow> analyzer" where
  "set_npm_scripts ks st = st\<lparr>custom_scripts := (custom_scripts st)\<lparr>npm_scripts := ks\<rparr>\<rparr>"

definition detect_npm_scripts :: "project \<Rightarrow> analyzer \<Rightarrow> error + analyzer" where
  "detect_npm_scripts p st =
     (case package_json p of
        None \<Rightarrow> Inr st
      | Some pkg \<Rightarrow>
          if \<not> truthy pkg then Inr st
          else ebind (py_in ''scripts'' pkg) (\<lambda>has.
            if \<not> has then Inr st
            else ebind (py_getitem pkg ''scripts'') (\<lambda>scripts.
                 ebind (py_keys scripts) (\<lambda>ks.
                   Inr (fold (\<lambda>script. add_launchers) ks (set_npm_scripts ks st))))))"

subsection \<open>Makefile\<close>

text \<open>
  \<open>re.match(r"^([a-zA-Z_][a-zA-Z0-9_-]*)\s*:", line)\<close>: the match starts at the first
  character of the line. The identifier characters, the white space and the colon are
  disjoint, so the greedy match is the only candidate: the longest run of identifier
  characters, then the white space, then a colon.
\<close>

definition is_alpha :: "char \<Rightarrow> bool" where
  "is_alpha c = ((97 \<le> (of_char c :: nat) \<and> (of_char c :: nat) \<le> 122) \<or>
                 (65 \<le> (of_char c :: nat) \<and> (of_char c :: nat) \<le> 90))"

definition is_digit :: "char \<Rightarrow> bool" where
  "is_digit c = (48 \<le> (of_char c :: nat) \<and> (of_char c :: nat) \<le> 57)"

definition ident_start :: "char \<Rightarrow> bool" where
  "ident_start c = (is_alpha c \<or> c = CHR ''_'')"

definition ident_char :: "char \<Rightarrow> bool" where
  "ident_char c = (is_alpha c \<or> is_digit c \<or> c = CHR ''_'' \<or> c = CHR ''-'')"

definition match_target :: "string \<Rightarrow> string option" where
  "match_target line =
     (case line of
        [] \<Rightarrow> None
      | c # cs \<Rightarrow>
          if ident_start c then
            (case dropWhile isspace (dropWhile ident_char cs) of
               [] \<Rightarrow> None
             | d # _ \<Rightarrow> if d = CHR '':'' then Some (c # takeWhile ident_char cs) else None)
          else None)"

definition append_make_target :: "pyval \<Rightarrow> analyzer \<Rightarrow> analyzer" where
  "append_make_target t st =
     st\<lparr>custom_scripts :=
          (custom_scripts st)\<lparr>make_targets := make_targets (custom_scripts st) @ [t]\<rparr>\<rparr>"

definition makefile_line :: "string \<Rightarrow> analyzer \<Rightarrow> analyzer" where
  "makefile_line line st =
     (case match_target line of
        None \<Rightarrow> st
      | Some target \<Rightarrow>
          if \<not> startswith target ''.'' then append_make_target (PStr target) st else st)"

definition detect_makefile_targets :: "project \<Rightarrow> analyzer \<Rightarrow> analyzer" where
  "detect_makefile_targets p st =
     (if \<not> makefile_exists p then st
      else case makefile_text p of
        None \<Rightarrow> st
      | Some content \<Rightarrow>
          if content = [] then st
          else let st' = fold makefile_line (splitlines content) st
               in if make_targets (custom_scripts st') \<noteq> []
                  then add_script_command ''make'' st' else st')"

subsection \<open>pyproject.toml\<close>

definition set_poetry_scripts :: "string list \<Rightarrow> analyzer \<Rightarrow> analyzer" where
  "set_poetry_scripts ks st =
     st\<lparr>custom_scripts := (custom_scripts st)\<lparr>poetry_scripts := ks\<rparr>\<rparr>"

text \<open>\<open>k1 in v and k2 in v[k1]\<close>: the second test is made only when the first holds.\<close>

definition has_path :: "pyval \<Rightarrow> string \<Rightarrow> string \<Rightarrow> error + bool" where
  "has_path v k1 k2 =
     ebind (py_in k1 v) (\<lambda>b.
       if b then ebind (py_getitem v k1) (\<lambda>w. py_in k2 w) else Inr False)"

definition poetry_section :: "pyval \<Rightarrow> analyzer \<Rightarrow> error + analyzer" where
  "poetry_section toml st =
     ebind (has_path toml ''tool'' ''poetry'') (\<lambda>b.
       if b then
         ebind (py_getitem toml ''tool'') (\<lambda>tool.
         ebind (py_getitem tool ''poetry'') (\<lambda>poetry.
         ebind (py_get poetry ''scripts'' (PDict [])) (\<lambda>poetry_scripts.
         ebind (py_keys poetry_scripts) (\<lambda>ks.
           Inr (set_poetry_scripts ks st)))))
       else Inr st)"

definition pep621_section :: "pyval \<Rightarrow> analyzer \<Rightarrow> error + analyzer" where
  "pep621_section toml st =
     ebind (has_path toml ''project'' ''scripts'') (\<lambda>b.
       if b then
         ebind (py_getitem toml ''project'') (\<lambda>proj.
         ebind (py_getitem proj ''scripts'') (\<lambda>scripts.
         ebind (py_keys scripts) (\<lambda>ks.
           Inr (set_poetry_scripts (poetry_scripts (custom_scripts st) @ ks) st))))
       else Inr st)"

definition detect_poetry_scripts :: "project \<Rightarrow> analyzer \<Rightarrow> error + analyzer" where
  "detect_poetry_scripts p st =
     (case pyproject_toml p of
        None \<Rightarrow> Inr st
      | Some toml \<Rightarrow>
          if \<not> truthy toml then Inr st
          else ebind (poetry_section toml st) (pep621_section toml))"

subsection \<open>Shell scripts\<close>

definition add_shell_script :: "string \<Rightarrow> analyzer \<Rightarrow> analyzer" where
  "add_shell_script script_name st =
     add_script_command (''./'' @ script_name)
       (st\<lparr>custom_scripts :=
            (custom_scripts st)\<lparr>shell_scripts :=
               shell_scripts (custom_scripts st) @ [script_name]\<rparr>\<rparr>)"

definition detect_shell_scripts :: "project \<Rightarrow> analyzer \<Rightarrow> analyzer" where
  "detect_shell_scripts p st =
     fold add_shell_script (bash_files p) (fold add_shell_script (sh_files p) st)"

definition detect_custom_scripts :: "project \<Rightarrow> analyzer \<Rightarrow> error + analyzer" where
  "detect_custom_scripts p st =
     ebind (detect_npm_scripts p st) (\<lambda>st1.
     ebind (detect_poetry_scripts p (detect_makefile_targets p st1)) (\<lambda>st3.
       Inr (detect_shell_scripts p st3)))"

section \<open>The user allowlist\<close>

definition allowlist_line :: "string \<Rightarrow> analyzer \<Rightarrow> analyzer" where
  "allowlist_line raw st =
     (let line = py_strip raw
      in if line \<noteq> [] \<and> \<not> startswith line ''#'' then add_custom_command line st else st)"

definition load_custom_allowlist :: "project \<Rightarrow> analyzer \<Rightarrow> analyzer" where
  "load_custom_allowlist p st =
     (case allowlist_text p of
        None \<Rightarrow> st
      | Some content \<Rightarrow>
          if content = [] then st else fold allowlist_line (splitlines content) st)"

section \<open>The workspace security defaults\<close>

definition default_make_target :: "pyval \<Rightarrow> analyzer \<Rightarrow> analyzer" where
  "default_make_target t st =
     (if \<not> list_contains (make_targets (custom_scripts st)) t
      then append_make_target t st else st)"

definition append_mise_task :: "pyval \<Rightarrow> analyzer \<Rightarrow> analyzer" where
  "append_mise_task t st =
     st\<lparr>custom_scripts :=
          (custom_scripts st)\<lparr>mise_tasks := mise_tasks (custom_scripts st) @ [t]\<rparr>\<rparr>"

definition default_mise_task :: "pyval \<Rightarrow> analyzer \<Rightarrow> analyzer" where
  "default_mise_task t st =
     (if \<not> list_contains (mise_tasks (custom_scripts st)) t
      then append_mise_task t st else st)"

definition load_make_targets :: "pyval \<Rightarrow> analyzer \<Rightarrow> error + analyzer" where
  "load_make_targets custom st =
     ebind (py_get custom ''make_targets'' (PList [])) (\<lambda>targets.
     ebind (py_iter targets) (\<lambda>ts.
       let st' = fold default_make_target ts st
       in Inr (if truthy targets then add_script_command ''make'' st' else st')))"

definition load_mise_tasks :: "pyval \<Rightarrow> analyzer \<Rightarrow> error + analyzer" where
  "load_mise_tasks custom st =
     ebind (py_get custom ''mise_tasks'' (PList [])) (\<lambda>tasks.
     ebind (py_iter tasks) (\<lambda>ts.
       let st' = fold default_mise_task ts st
       in Inr (if truthy tasks then add_script_command ''mise'' st' else st')))"

text \<open>
  \<open>base_cmd = cmd.split()[0] if cmd else ""\<close>: the subscript is evaluated whenever
  \<open>cmd\<close> is not the empty string, and raises \<open>IndexError\<close> when \<open>cmd.split()\<close> is empty.
\<close>

definition base_command :: "string \<Rightarrow> error + string" where
  "base_command cmd =
     (if cmd \<noteq> [] then (case py_split cmd of [] \<Rightarrow> Inl IndexError | w # _ \<Rightarrow> Inr w)
      else Inr [])"

definition validation_command :: "string \<times> pyval \<Rightarrow> analyzer \<Rightarrow> error + analyzer" where
  "validation_command kv st =
     (case snd kv of
        PStr cmd \<Rightarrow>
          ebind (base_command cmd) (\<lambda>base_cmd.
            Inr (if base_cmd \<noteq> [] then add_custom_command base_cmd st else st))
      | _ \<Rightarrow> Inr st)"

definition validation_category :: "string \<times> pyval \<Rightarrow> analyzer \<Rightarrow> error + analyzer" where
  "validation_category kv st =
     (case snd kv of
        PDict commands \<Rightarrow> foldE validation_command commands st
      | _ \<Rightarrow> Inr st)"

definition load_validation_commands :: "pyval \<Rightarrow> analyzer \<Rightarrow> error + analyzer" where
  "load_validation_commands data st =
     ebind (py_get data ''validation_commands'' (PDict [])) (\<lambda>validation_commands.
     ebind (py_items validation_commands) (\<lambda>items.
       foldE validation_category items st))"

definition merge_defaults :: "pyval \<Rightarrow> analyzer \<Rightarrow> error + analyzer" where
  "merge_defaults data st =
     ebind (py_get data ''custom_scripts'' (PDict [])) (\<lambda>custom.
     ebind (load_make_targets custom st) (\<lambda>st1.
     ebind (load_mise_tasks custom st1) (\<lambda>st2.
       load_validation_commands data st2)))"

text \<open>
  \<open>except (OSError, json.JSONDecodeError)\<close>: the two classes the handler catches. Every
  other exception leaves the \<open>try\<close> statement and the method.
\<close>

definition caught :: "error \<Rightarrow> bool" where
  "caught e = (e = OSError \<or> e = JSONDecodeError)"

text \<open>
  The test \<open>defaults_path.exists()\<close> stands before the \<open>try\<close> statement, so what it
  raises is not handled; what \<open>open\<close> and \<open>json.load\<close> raise is handled by the
  \<open>except\<close> clause.
\<close>

definition load_security_defaults :: "project \<Rightarrow> analyzer \<Rightarrow> error + analyzer" where
  "load_security_defaults p st =
     (case security_defaults p of
        ExistsRaises \<Rightarrow> Inl OSError
      | Absent \<Rightarrow> Inr st
      | LoadRaises e \<Rightarrow> if caught e then Inr st else Inl e
      | Parsed data \<Rightarrow> merge_defaults data st)"

section \<open>Resolution\<close>

definition result :: "analyzer \<Rightarrow> CustomScripts \<times> string set \<times> string set" where
  "result st = (custom_scripts st, script_commands st, custom_commands st)"

definition gathered :: "project \<Rightarrow> error + analyzer" where
  "gathered p =
     ebind (detect_custom_scripts p init) (\<lambda>st. Inr (load_custom_allowlist p st))"

definition analyze :: "project \<Rightarrow> error + CustomScripts \<times> string set \<times> string set" where
  "analyze p =
     ebind (gathered p) (\<lambda>st.
     ebind (load_security_defaults p st) (\<lambda>st'. Inr (result st')))"

section \<open>Cross-repository patterns\<close>

text \<open>
  \<open>cross_repo_patterns\<close> is declared \<open>dict[str, dict]\<close>: a dictionary from pattern names
  to dictionaries. \<open>{"pattern": name, **info}\<close> builds a dictionary that starts with the
  key \<open>pattern\<close> and then stores every item of \<open>info\<close>: storing under a key the
  dictionary already has replaces the value and keeps the position of the key.
\<close>

record MultiRepoContext =
  workspace_root :: string
  repos :: "(string \<times> (string \<times> pyval) list) list"
  dependencies :: "(string \<times> string list) list"
  cross_repo_patterns :: "(string \<times> (string \<times> pyval) list) list"
  worktree_strategy :: "(string \<times> string) list"

fun dict_set :: "string \<Rightarrow> pyval \<Rightarrow> (string \<times> pyval) list \<Rightarrow> (string \<times> pyval) list" where
  "dict_set k v [] = [(k, v)]"
| "dict_set k v (kv # kvs) = (if fst kv = k then (k, v) # kvs else kv # dict_set k v kvs)"

definition impact_dict :: "string \<Rightarrow> (string \<times> pyval) list \<Rightarrow> (string \<times> pyval) list" where
  "impact_dict pattern_name pattern_info =
     fold (\<lambda>kv d. dict_set (fst kv) (snd kv) d) pattern_info [(''pattern'', PStr pattern_name)]"

definition involves :: "string \<Rightarrow> (string \<times> pyval) list \<Rightarrow> error + bool" where
  "involves repo_name pattern_info =
     ebind (py_get (PDict pattern_info) ''repos'' (PList [])) (\<lambda>rs. py_in repo_name rs)"

definition impact_step ::
  "string \<Rightarrow> string \<times> (string \<times> pyval) list \<Rightarrow> pyval list \<Rightarrow> error + pyval list" where
  "impact_step repo_name entry impacts =
     ebind (involves repo_name (snd entry)) (\<lambda>b.
       Inr (if b then impacts @ [PDict (impact_dict (fst entry) (snd entry))] else impacts))"

definition get_cross_repo_impact :: "MultiRepoContext \<Rightarrow> string \<Rightarrow> error + pyval list" where
  "get_cross_repo_impact ctx repo_name =
     foldE (impact_step repo_name) (cross_repo_patterns ctx) []"

section \<open>Concrete inputs\<close>

definition example_ctx :: MultiRepoContext where
  "example_ctx =
     \<lparr>workspace_root = [], repos = [], dependencies = [],
      cross_repo_patterns =
        [(''auth-flow'', [(''repos'', PList [PStr ''core'', PStr ''web''])]),
         (''billing'', [(''repos'', PList [PStr ''api''])])],
      worktree_strategy = []\<rparr>"

definition renamed_ctx :: MultiRepoContext where
  "renamed_ctx =
     \<lparr>workspace_root = [], repos = [], dependencies = [],
      cross_repo_patterns =
        [(''auth-flow'', [(''repos'', PList [PStr ''core'']), (''pattern'', PStr ''login'')])],
      worktree_strategy = []\<rparr>"

definition no_files :: project where
  "no_files =
     \<lparr>package_json = None, makefile_exists = False, makefile_text = None,
      pyproject_toml = None, sh_files = [], bash_files = [], allowlist_text = None,
      security_defaults = Absent\<rparr>"

definition empty_catalog :: CustomScripts where
  "empty_catalog =
     \<lparr>npm_scripts = [], make_targets = [], poetry_scripts = [], shell_scripts = [],
      mise_tasks = []\<rparr>"

text \<open>
  The Makefile of the specification: \<open>build:\<close>, \<open>.PHONY: build\<close>, an indented
  \<open>test: build\<close>, and \<open>lint:\<close> with a recipe line that starts with a tab.
\<close>

definition makefile_example_text :: string where
  "makefile_example_text =
     ''build:'' @ [CHR 0x0A] @ ''.PHONY: build'' @ [CHR 0x0A] @
     ''  test: build'' @ [CHR 0x0A] @ ''lint:'' @ [CHR 0x0A] @
     [CHR 0x09] @ ''do-thing'' @ [CHR 0x0A]"

definition makefile_example :: project where
  "makefile_example =
     no_files\<lparr>makefile_exists := True, makefile_text := Some makefile_example_text\<rparr>"

text \<open>\<open>{"validation_commands": {"go": {"build": "   "}}}\<close>\<close>

definition blank_command :: project where
  "blank_command =
     no_files\<lparr>security_defaults :=
       Parsed (PDict [(''validation_commands'',
                       PDict [(''go'', PDict [(''build'', PStr ''   '')])])])\<rparr>"

text \<open>
  The Makefile above next to a defaults file that was cut off inside a multi-byte UTF-8
  character (the bytes \<open>{"a": "\<close> followed by the byte 0xC3): reading it raises
  \<open>UnicodeDecodeError\<close>.
\<close>

definition truncated_defaults :: project where
  "truncated_defaults = makefile_example\<lparr>security_defaults := LoadRaises UnicodeDecodeError\<rparr>"

text \<open>A \<open>pyproject.toml\<close> with \<open>[tool.poetry.scripts] serve = "app:main"\<close>.\<close>

definition poetry_project :: project where
  "poetry_project =
     no_files\<lparr>pyproject_toml :=
       Some (PDict [(''tool'',
               PDict [(''poetry'',
                 PDict [(''scripts'', PDict [(''serve'', PStr ''app:main'')])])])])\<rparr>"

text \<open>
  A \<open>package.json\<close> with the scripts \<open>build\<close> and \<open>test\<close>, next to a Makefile with
  the target \<open>all\<close>.
\<close>

definition npm_project :: project where
  "npm_project =
     no_files\<lparr>package_json :=
       Some (PDict [(''name'', PStr ''app''),
                    (''scripts'', PDict [(''build'', PStr ''tsc''), (''test'', PStr ''jest'')])]),
       makefile_exists := True, makefile_text := Some ''all: build''\<rparr>"

text \<open>A \<open>package.json\<close> whose \<open>scripts\<close> is empty, a Makefile and a shell script.\<close>

definition empty_scripts_project :: project where
  "empty_scripts_project =
     no_files\<lparr>package_json := Some (PDict [(''name'', PStr ''app''), (''scripts'', PDict [])]),
       makefile_exists := True, makefile_text := Some ''all: build'',
       sh_files := [''run.sh'']\<rparr>"

text \<open>
  An allowlist with the line \<open>docker\<close>, and the defaults
  \<open>{"custom_scripts": {"make_targets": ["build"], "mise_tasks": ["lint"]},
    "validation_commands": {"go": {"build": "go build ./..."}}}\<close>.
\<close>

definition defaults_project :: project where
  "defaults_project =
     no_files\<lparr>allowlist_text := Some (''docker'' @ [CHR 0x0A]),
       security_defaults :=
         Parsed (PDict
           [(''custom_scripts'',
               PDict [(''make_targets'', PList [PStr ''build'']),
                      (''mise_tasks'', PList [PStr ''lint''])]),
            (''validation_commands'',
               PDict [(''go'', PDict [(''build'', PStr ''go build ./...'')])])])\<rparr>"

section \<open>Exceptions and loops\<close>

lemma ebind_Inl [simp]: "ebind (Inl e) f = Inl e"
  by (simp add: ebind_def)

lemma ebind_Inr [simp]: "ebind (Inr x) f = f x"
  by (simp add: ebind_def)

lemma ebind_eq_Inr: "ebind m f = Inr y \<longleftrightarrow> (\<exists>x. m = Inr x \<and> f x = Inr y)"
  by (cases m) simp_all

lemma foldE_append: "foldE f (xs @ ys) s = ebind (foldE f xs s) (foldE f ys)"
  by (induction xs arbitrary: s) (simp_all split: sum.splits)

lemma list_contains_PStr: "list_contains xs (PStr k) = (PStr k \<in> set xs)"
  by (induction xs) (auto simp: list_contains_def)

section \<open>Cross-repository impact\<close>

lemma impact_fold:
  "foldE (impact_step r) ps acc = Inr res \<longleftrightarrow>
     (list_all (\<lambda>e. \<not> isl (involves r (snd e))) ps \<and>
      res = acc @ map (\<lambda>e. PDict (impact_dict (fst e) (snd e)))
                   (filter (\<lambda>e. involves r (snd e) = Inr True) ps))"
proof (induction ps arbitrary: acc)
  case Nil
  show ?case by auto
next
  case (Cons e ps)
  show ?case
  proof (cases "involves r (snd e)")
    case (Inl err)
    then show ?thesis by (simp add: impact_step_def)
  next
    case (Inr b)
    then show ?thesis using Cons.IH by (simp add: impact_step_def)
  qed
qed

lemma involves_repos_list:
  "map_of info ''repos'' = Some (PList rs) \<Longrightarrow> involves r info = Inr (PStr r \<in> set rs)"
  by (simp add: involves_def list_contains_PStr)

lemma involves_no_repos: "map_of info ''repos'' = None \<Longrightarrow> involves r info = Inr False"
  by (simp add: involves_def list_contains_def)

lemma dict_set_map_of: "map_of (dict_set k v d) = (map_of d)(k \<mapsto> v)"
  by (induction d) (auto simp: fun_eq_iff)

lemma fold_dict_set_map_of:
  "map_of (fold (\<lambda>kv d. dict_set (fst kv) (snd kv) d) info d) = map_of d ++ map_of (rev info)"
  by (induction info arbitrary: d)
     (auto simp: dict_set_map_of fun_eq_iff map_add_def split: option.splits)

lemma map_of_rev_distinct: "distinct (map fst xs) \<Longrightarrow> map_of (rev xs) = map_of xs"
proof (induction xs)
  case Nil
  show ?case by simp
next
  case (Cons kv xs)
  have "fst kv \<notin> dom (map_of xs)"
    using Cons.prems by (simp add: dom_map_of_conv_image_fst)
  then have "map_of xs (fst kv) = None" by blast
  then show ?case using Cons
    by (cases kv) (auto simp: fun_eq_iff map_add_def split: option.splits)
qed

lemma impact_dict_map_of:
  "distinct (map fst info) \<Longrightarrow>
   map_of (impact_dict n info) = [''pattern'' \<mapsto> PStr n] ++ map_of info"
  by (simp add: impact_dict_def fold_dict_set_map_of map_of_rev_distinct)

text \<open>
  C7. Over the patterns \<open>auth-flow\<close> (repos \<open>core\<close>, \<open>web\<close>) and \<open>billing\<close> (repos
  \<open>api\<close>), the impact query for \<open>core\<close> returns exactly the one dictionary with
  \<open>pattern = auth-flow\<close> and \<open>repos = [core, web]\<close>. In general the query returns, in
  the order of the patterns, the pattern name merged with the pattern record of every
  pattern whose \<open>repos\<close> contains the queried name, and it returns whenever the
  membership test raises for no pattern; a \<open>repos\<close> list contains the name when the name
  is one of its elements.
\<close>

theorem get_cross_repo_impact_matching:
  "get_cross_repo_impact example_ctx ''core'' =
     Inr [PDict [(''pattern'', PStr ''auth-flow''),
                 (''repos'', PList [PStr ''core'', PStr ''web''])]] \<and>
   (get_cross_repo_impact ctx r = Inr res \<longleftrightarrow>
      (list_all (\<lambda>e. \<not> isl (involves r (snd e))) (cross_repo_patterns ctx) \<and>
       res = map (\<lambda>e. PDict (impact_dict (fst e) (snd e)))
               (filter (\<lambda>e. involves r (snd e) = Inr True) (cross_repo_patterns ctx)))) \<and>
   (map_of info ''repos'' = Some (PList rs) \<longrightarrow> involves r info = Inr (PStr r \<in> set rs))"
proof (intro conjI)
  show "get_cross_repo_impact example_ctx ''core'' =
     Inr [PDict [(''pattern'', PStr ''auth-flow''),
                 (''repos'', PList [PStr ''core'', PStr ''web''])]]"
    by (simp add: get_cross_repo_impact_def example_ctx_def impact_step_def involves_def
        impact_dict_def list_contains_def)
  show "get_cross_repo_impact ctx r = Inr res \<longleftrightarrow>
      (list_all (\<lambda>e. \<not> isl (involves r (snd e))) (cross_repo_patterns ctx) \<and>
       res = map (\<lambda>e. PDict (impact_dict (fst e) (snd e)))
               (filter (\<lambda>e. involves r (snd e) = Inr True) (cross_repo_patterns ctx)))"
    unfolding get_cross_repo_impact_def by (simp add: impact_fold)
  show "map_of info ''repos'' = Some (PList rs) \<longrightarrow> involves r info = Inr (PStr r \<in> set rs)"
    by (simp add: involves_repos_list)
qed

theorem get_cross_repo_impact_matching_witness:
  "involves ''api'' [(''repos'', PList [PStr ''api''])] = Inr True \<and>
   get_cross_repo_impact example_ctx ''api'' =
     Inr [PDict [(''pattern'', PStr ''billing''), (''repos'', PList [PStr ''api''])]]"
proof -
  note t = get_cross_repo_impact_matching
      [where ctx = example_ctx and r = "''api''" and rs = "[PStr ''api'']"
         and info = "[(''repos'', PList [PStr ''api''])]"
         and res = "[PDict [(''pattern'', PStr ''billing''), (''repos'', PList [PStr ''api''])]]"]
  have i: "involves ''api'' [(''repos'', PList [PStr ''api''])] = Inr True"
    using t by simp
  have j: "involves ''api'' [(''repos'', PList [PStr ''core'', PStr ''web''])] = Inr False"
    by (simp add: involves_def list_contains_def)
  show ?thesis
    using t i j by (simp add: example_ctx_def impact_dict_def)
qed

text \<open>
  C9. A pattern record that has a key \<open>pattern\<close> of its own, and whose \<open>repos\<close> contains
  the queried name, is returned as a dictionary whose \<open>pattern\<close> value is the record's
  value: the record's items are stored after the pattern name and replace it, so the
  returned dictionary maps every key to what the record maps it to.
\<close>

theorem impact_pattern_key_overrides_name:
  assumes "distinct (map fst info)"
    and "map_of info ''pattern'' = Some v"
    and "(n, info) \<in> set (cross_repo_patterns ctx)"
    and "involves r info = Inr True"
    and "get_cross_repo_impact ctx r = Inr res"
  shows "PDict (impact_dict n info) \<in> set res \<and>
         map_of (impact_dict n info) ''pattern'' = Some v \<and>
         map_of (impact_dict n info) = map_of info"
proof -
  have "res = map (\<lambda>e. PDict (impact_dict (fst e) (snd e)))
               (filter (\<lambda>e. involves r (snd e) = Inr True) (cross_repo_patterns ctx))"
    using assms(5) unfolding get_cross_repo_impact_def by (simp add: impact_fold)
  moreover have "(n, info) \<in> set (filter (\<lambda>e. involves r (snd e) = Inr True)
                                     (cross_repo_patterns ctx))"
    using assms(3,4) by simp
  ultimately have m: "PDict (impact_dict n info) \<in> set res"
    by force
  have e: "map_of (impact_dict n info) = map_of info"
    using assms(1,2)
    by (auto simp: impact_dict_map_of fun_eq_iff map_add_def split: option.splits)
  show ?thesis using m e assms(2) by simp
qed

theorem impact_pattern_key_overrides_name_witness:
  "get_cross_repo_impact renamed_ctx ''core'' =
     Inr [PDict [(''pattern'', PStr ''login''), (''repos'', PList [PStr ''core''])]] \<and>
   map_of (impact_dict ''auth-flow''
             [(''repos'', PList [PStr ''core'']), (''pattern'', PStr ''login'')]) ''pattern''
     = Some (PStr ''login'')"
proof -
  have r: "get_cross_repo_impact renamed_ctx ''core'' =
     Inr [PDict [(''pattern'', PStr ''login''), (''repos'', PList [PStr ''core''])]]"
    by (simp add: get_cross_repo_impact_def renamed_ctx_def impact_step_def involves_def
        impact_dict_def list_contains_def)
  have i: "involves ''core'' [(''repos'', PList [PStr ''core'']), (''pattern'', PStr ''login'')]
             = Inr True"
    by (simp add: involves_def list_contains_def)
  have c: "(''auth-flow'', [(''repos'', PList [PStr ''core'']), (''pattern'', PStr ''login'')])
             \<in> set (cross_repo_patterns renamed_ctx)"
    by (simp add: renamed_ctx_def)
  show ?thesis
    using impact_pattern_key_overrides_name
      [of "[(''repos'', PList [PStr ''core'']), (''pattern'', PStr ''login'')]"
          "PStr ''login''" "''auth-flow''" renamed_ctx "''core''", OF _ _ c i r] r
    by simp
qed

text \<open>
  C10. A pattern record without the key \<open>repos\<close> is not included in the result and
  raises nothing, whatever the queried name: the membership test is made on the empty
  list, and the query returns what it returns without that pattern.
\<close>

theorem missing_repos_key_is_skipped:
  assumes "map_of info ''repos'' = None"
  shows "involves r info = Inr False \<and>
         get_cross_repo_impact (ctx\<lparr>cross_repo_patterns := ps @ (n, info) # qs\<rparr>) r =
         get_cross_repo_impact (ctx\<lparr>cross_repo_patterns := ps @ qs\<rparr>) r"
proof -
  have s: "impact_step r (n, info) acc = Inr acc" for acc
    by (simp add: impact_step_def involves_no_repos [OF assms])
  have "foldE (impact_step r) ((n, info) # qs) = foldE (impact_step r) qs"
    by (rule ext) (simp add: s)
  then show ?thesis
    by (simp add: get_cross_repo_impact_def foldE_append involves_no_repos [OF assms])
qed

theorem missing_repos_key_is_skipped_witness:
  "map_of [(''owner'', PStr ''team-a'')] ''repos'' = None \<and>
   get_cross_repo_impact
     (example_ctx\<lparr>cross_repo_patterns :=
        [(''auth-flow'', [(''repos'', PList [PStr ''core'', PStr ''web''])])] @
        (''orphan'', [(''owner'', PStr ''team-a'')]) #
        [(''billing'', [(''repos'', PList [PStr ''api''])])]\<rparr>) ''core'' =
     Inr [PDict [(''pattern'', PStr ''auth-flow''),
                 (''repos'', PList [PStr ''core'', PStr ''web''])]]"
proof -
  have h: "map_of [(''owner'', PStr ''team-a'')] ''repos'' = None" by simp
  have e: "get_cross_repo_impact
             (example_ctx\<lparr>cross_repo_patterns :=
                [(''auth-flow'', [(''repos'', PList [PStr ''core'', PStr ''web''])])] @
                [(''billing'', [(''repos'', PList [PStr ''api''])])]\<rparr>) ''core'' =
           Inr [PDict [(''pattern'', PStr ''auth-flow''),
                       (''repos'', PList [PStr ''core'', PStr ''web''])]]"
    by (simp add: get_cross_repo_impact_def example_ctx_def impact_step_def involves_def
        impact_dict_def list_contains_def)
  show ?thesis
    using missing_repos_key_is_skipped [OF h, where r = "''core''" and ctx = example_ctx
        and ps = "[(''auth-flow'', [(''repos'', PList [PStr ''core'', PStr ''web''])])]"
        and n = "''orphan''"
        and qs = "[(''billing'', [(''repos'', PList [PStr ''api''])])]"] e h
    by simp
qed

section \<open>What each step of resolution changes\<close>

text \<open>
  For every step: which of the script commands, the custom commands and the catalog it
  can change, and in which direction.
\<close>

lemma add_script_command_simps [simp]:
  "script_commands (add_script_command c st) = insert c (script_commands st)"
  "custom_commands (add_script_command c st) = custom_commands st"
  "custom_scripts (add_script_command c st) = custom_scripts st"
  by (simp_all add: add_script_command_def)

lemma add_custom_command_simps [simp]:
  "script_commands (add_custom_command c st) = script_commands st"
  "custom_commands (add_custom_command c st) = insert c (custom_commands st)"
  "custom_scripts (add_custom_command c st) = custom_scripts st"
  by (simp_all add: add_custom_command_def)

lemma add_launchers_simps [simp]:
  "script_commands (add_launchers st) = {''npm'', ''yarn'', ''pnpm'', ''bun''} \<union> script_commands st"
  "custom_commands (add_launchers st) = custom_commands st"
  "custom_scripts (add_launchers st) = custom_scripts st"
  by (auto simp: add_launchers_def)

lemma fold_add_launchers:
  "script_commands (fold (\<lambda>script. add_launchers) ks st) =
     (if ks = [] then script_commands st else {''npm'', ''yarn'', ''pnpm'', ''bun''} \<union> script_commands st)"
  "custom_commands (fold (\<lambda>script. add_launchers) ks st) = custom_commands st"
  "custom_scripts (fold (\<lambda>script. add_launchers) ks st) = custom_scripts st"
  by (induction ks arbitrary: st) auto

lemma set_npm_scripts_simps [simp]:
  "script_commands (set_npm_scripts ks st) = script_commands st"
  "custom_commands (set_npm_scripts ks st) = custom_commands st"
  "npm_scripts (custom_scripts (set_npm_scripts ks st)) = ks"
  "make_targets (custom_scripts (set_npm_scripts ks st)) = make_targets (custom_scripts st)"
  by (simp_all add: set_npm_scripts_def)

lemma set_poetry_scripts_simps [simp]:
  "script_commands (set_poetry_scripts ks st) = script_commands st"
  "custom_commands (set_poetry_scripts ks st) = custom_commands st"
  "npm_scripts (custom_scripts (set_poetry_scripts ks st)) = npm_scripts (custom_scripts st)"
  "make_targets (custom_scripts (set_poetry_scripts ks st)) = make_targets (custom_scripts st)"
  "poetry_scripts (custom_scripts (set_poetry_scripts ks st)) = ks"
  by (simp_all add: set_poetry_scripts_def)

lemma append_make_target_simps [simp]:
  "script_commands (append_make_target t st) = script_commands st"
  "custom_commands (append_make_target t st) = custom_commands st"
  "npm_scripts (custom_scripts (append_make_target t st)) = npm_scripts (custom_scripts st)"
  "make_targets (custom_scripts (append_make_target t st)) = make_targets (custom_scripts st) @ [t]"
  by (simp_all add: append_make_target_def)

lemma append_mise_task_simps [simp]:
  "script_commands (append_mise_task t st) = script_commands st"
  "custom_commands (append_mise_task t st) = custom_commands st"
  "npm_scripts (custom_scripts (append_mise_task t st)) = npm_scripts (custom_scripts st)"
  "make_targets (custom_scripts (append_mise_task t st)) = make_targets (custom_scripts st)"
  by (simp_all add: append_mise_task_def)

lemma add_shell_script_simps [simp]:
  "script_commands (add_shell_script n st) = insert (''./'' @ n) (script_commands st)"
  "custom_commands (add_shell_script n st) = custom_commands st"
  "npm_scripts (custom_scripts (add_shell_script n st)) = npm_scripts (custom_scripts st)"
  "make_targets (custom_scripts (add_shell_script n st)) = make_targets (custom_scripts st)"
  by (simp_all add: add_shell_script_def)

lemma fold_add_shell_script:
  "script_commands (fold add_shell_script ns st) = (\<lambda>n. ''./'' @ n) ` set ns \<union> script_commands st"
  "custom_commands (fold add_shell_script ns st) = custom_commands st"
  "npm_scripts (custom_scripts (fold add_shell_script ns st)) = npm_scripts (custom_scripts st)"
  "make_targets (custom_scripts (fold add_shell_script ns st)) = make_targets (custom_scripts st)"
  by (induction ns arbitrary: st) auto

lemma detect_shell_scripts_simps:
  "script_commands (detect_shell_scripts p st) =
     (\<lambda>n. ''./'' @ n) ` (set (sh_files p) \<union> set (bash_files p)) \<union> script_commands st"
  "custom_commands (detect_shell_scripts p st) = custom_commands st"
  "npm_scripts (custom_scripts (detect_shell_scripts p st)) = npm_scripts (custom_scripts st)"
  "make_targets (custom_scripts (detect_shell_scripts p st)) = make_targets (custom_scripts st)"
  by (auto simp: detect_shell_scripts_def fold_add_shell_script)

lemma makefile_line_simps [simp]:
  "script_commands (makefile_line l st) = script_commands st"
  "custom_commands (makefile_line l st) = custom_commands st"
  "npm_scripts (custom_scripts (makefile_line l st)) = npm_scripts (custom_scripts st)"
  by (simp_all add: makefile_line_def split: option.splits)

lemma fold_makefile_line:
  "script_commands (fold makefile_line ls st) = script_commands st"
  "custom_commands (fold makefile_line ls st) = custom_commands st"
  "npm_scripts (custom_scripts (fold makefile_line ls st)) = npm_scripts (custom_scripts st)"
  by (induction ls arbitrary: st) auto

lemma detect_makefile_targets_frame:
  "custom_commands (detect_makefile_targets p st) = custom_commands st"
  "npm_scripts (custom_scripts (detect_makefile_targets p st)) = npm_scripts (custom_scripts st)"
  "script_commands st \<subseteq> script_commands (detect_makefile_targets p st)"
  "script_commands (detect_makefile_targets p st) \<subseteq> insert ''make'' (script_commands st)"
  by (auto simp: detect_makefile_targets_def fold_makefile_line Let_def split: option.splits)

lemma makefile_line_targets:
  "make_targets (custom_scripts st) \<noteq> [] \<Longrightarrow> make_targets (custom_scripts (makefile_line l st)) \<noteq> []"
  by (simp add: makefile_line_def split: option.splits)

lemma fold_makefile_line_targets:
  "make_targets (custom_scripts st) \<noteq> [] \<Longrightarrow> make_targets (custom_scripts (fold makefile_line ls st)) \<noteq> []"
  by (induction ls arbitrary: st) (simp_all add: makefile_line_targets)

lemma detect_makefile_targets_make:
  "make_targets (custom_scripts (detect_makefile_targets p st)) \<noteq> [] \<Longrightarrow>
   make_targets (custom_scripts st) \<noteq> [] \<and> detect_makefile_targets p st = st \<or>
   ''make'' \<in> script_commands (detect_makefile_targets p st)"
  by (auto simp: detect_makefile_targets_def Let_def split: option.splits if_splits)

lemma detect_npm_scripts_cases:
  assumes "detect_npm_scripts p st = Inr st'"
  shows "st' = st \<or>
         (\<exists>ks. st' = fold (\<lambda>script. add_launchers) ks (set_npm_scripts ks st))"
  using assms
  by (auto simp: detect_npm_scripts_def ebind_eq_Inr split: option.splits if_splits)

lemma detect_npm_scripts_frame:
  assumes "detect_npm_scripts p st = Inr st'"
  shows "custom_commands st' = custom_commands st"
    and "script_commands st \<subseteq> script_commands st'"
    and "make_targets (custom_scripts st') = make_targets (custom_scripts st)"
    and "npm_scripts (custom_scripts st) = [] \<Longrightarrow> npm_scripts (custom_scripts st') \<noteq> [] \<Longrightarrow>
           {''npm'', ''yarn'', ''pnpm'', ''bun''} \<subseteq> script_commands st'"
    and "npm_scripts (custom_scripts st') = [] \<Longrightarrow> npm_scripts (custom_scripts st) = [] \<Longrightarrow> script_commands st' = script_commands st"
  using detect_npm_scripts_cases [OF assms]
  by (auto simp: fold_add_launchers split: if_splits)

lemma poetry_section_frame:
  assumes "poetry_section toml st = Inr st'"
  shows "\<exists>ks. st' = st \<or> st' = set_poetry_scripts ks st"
  using assms by (auto simp: poetry_section_def ebind_eq_Inr split: if_splits)

lemma pep621_section_frame:
  assumes "pep621_section toml st = Inr st'"
  shows "\<exists>ks. st' = st \<or> st' = set_poetry_scripts ks st"
  using assms by (auto simp: pep621_section_def ebind_eq_Inr split: if_splits)

lemma detect_poetry_scripts_frame:
  assumes "detect_poetry_scripts p st = Inr st'"
  shows "script_commands st' = script_commands st"
    and "custom_commands st' = custom_commands st"
    and "npm_scripts (custom_scripts st') = npm_scripts (custom_scripts st)"
    and "make_targets (custom_scripts st') = make_targets (custom_scripts st)"
proof -
  have "st' = st \<or> (\<exists>ks. st' = set_poetry_scripts ks st) \<or>
        (\<exists>ks ks'. st' = set_poetry_scripts ks' (set_poetry_scripts ks st))"
    using assms
    by (auto simp: detect_poetry_scripts_def ebind_eq_Inr split: option.splits if_splits
        dest!: poetry_section_frame pep621_section_frame)
  then show "script_commands st' = script_commands st"
    and "custom_commands st' = custom_commands st"
    and "npm_scripts (custom_scripts st') = npm_scripts (custom_scripts st)"
    and "make_targets (custom_scripts st') = make_targets (custom_scripts st)"
    by auto
qed

lemma allowlist_line_simps [simp]:
  "script_commands (allowlist_line l st) = script_commands st"
  "custom_scripts (allowlist_line l st) = custom_scripts st"
  by (auto simp: allowlist_line_def Let_def)

lemma allowlist_line_mono: "custom_commands st \<subseteq> custom_commands (allowlist_line l st)"
  by (auto simp: allowlist_line_def Let_def)

lemma fold_allowlist_line:
  "script_commands (fold allowlist_line ls st) = script_commands st"
  "custom_scripts (fold allowlist_line ls st) = custom_scripts st"
  by (induction ls arbitrary: st) auto

lemma fold_allowlist_line_mono:
  "custom_commands st \<subseteq> custom_commands (fold allowlist_line ls st)"
proof (induction ls arbitrary: st)
  case Nil
  show ?case by simp
next
  case (Cons l ls)
  have "custom_commands st \<subseteq> custom_commands (allowlist_line l st)"
    by (rule allowlist_line_mono)
  also have "\<dots> \<subseteq> custom_commands (fold allowlist_line ls (allowlist_line l st))"
    by (rule Cons.IH)
  finally show ?case by simp
qed

lemma load_custom_allowlist_frame:
  "script_commands (load_custom_allowlist p st) = script_commands st"
  "custom_scripts (load_custom_allowlist p st) = custom_scripts st"
  "custom_commands st \<subseteq> custom_commands (load_custom_allowlist p st)"
  using fold_allowlist_line_mono [of st]
  by (auto simp: load_custom_allowlist_def fold_allowlist_line split: option.splits)

lemma py_iter_truthy: "py_iter v = Inr ts \<Longrightarrow> truthy v = (ts \<noteq> [])"
  by (cases v) auto

lemma default_make_target_simps [simp]:
  "script_commands (default_make_target t st) = script_commands st"
  "custom_commands (default_make_target t st) = custom_commands st"
  "npm_scripts (custom_scripts (default_make_target t st)) = npm_scripts (custom_scripts st)"
  by (simp_all add: default_make_target_def)

lemma fold_default_make_target:
  "script_commands (fold default_make_target ts st) = script_commands st"
  "custom_commands (fold default_make_target ts st) = custom_commands st"
  "npm_scripts (custom_scripts (fold default_make_target ts st)) = npm_scripts (custom_scripts st)"
  by (induction ts arbitrary: st) auto

lemma default_mise_task_simps [simp]:
  "script_commands (default_mise_task t st) = script_commands st"
  "custom_commands (default_mise_task t st) = custom_commands st"
  "npm_scripts (custom_scripts (default_mise_task t st)) = npm_scripts (custom_scripts st)"
  "make_targets (custom_scripts (default_mise_task t st)) = make_targets (custom_scripts st)"
  by (simp_all add: default_mise_task_def)

lemma fold_default_mise_task:
  "script_commands (fold default_mise_task ts st) = script_commands st"
  "custom_commands (fold default_mise_task ts st) = custom_commands st"
  "npm_scripts (custom_scripts (fold default_mise_task ts st)) = npm_scripts (custom_scripts st)"
  "make_targets (custom_scripts (fold default_mise_task ts st)) = make_targets (custom_scripts st)"
  by (induction ts arbitrary: st) auto

lemma load_make_targets_frame:
  assumes "load_make_targets custom st = Inr st'"
  shows "custom_commands st' = custom_commands st"
    and "npm_scripts (custom_scripts st') = npm_scripts (custom_scripts st)"
    and "script_commands st \<subseteq> script_commands st'"
    and "script_commands st' \<subseteq> insert ''make'' (script_commands st)"
    and "make_targets (custom_scripts st') \<noteq> [] \<Longrightarrow>
           ''make'' \<in> script_commands st' \<or>
           (make_targets (custom_scripts st) \<noteq> [] \<and> script_commands st' = script_commands st)"
proof -
  obtain targets ts where t: "py_iter targets = Inr ts"
    and s: "st' = (if truthy targets
                   then add_script_command ''make'' (fold default_make_target ts st)
                   else fold default_make_target ts st)"
    using assms by (auto simp: load_make_targets_def ebind_eq_Inr Let_def)
  show "custom_commands st' = custom_commands st"
    and "npm_scripts (custom_scripts st') = npm_scripts (custom_scripts st)"
    and "script_commands st \<subseteq> script_commands st'"
    and "script_commands st' \<subseteq> insert ''make'' (script_commands st)"
    using s by (auto simp: Let_def fold_default_make_target)
  show "''make'' \<in> script_commands st' \<or>
        (make_targets (custom_scripts st) \<noteq> [] \<and> script_commands st' = script_commands st)"
    if "make_targets (custom_scripts st') \<noteq> []"
  proof (cases "ts = []")
    case True
    then show ?thesis using s t that by (simp add: py_iter_truthy)
  next
    case False
    then show ?thesis using s t by (simp add: py_iter_truthy)
  qed
qed

lemma load_mise_tasks_frame:
  assumes "load_mise_tasks custom st = Inr st'"
  shows "custom_commands st' = custom_commands st"
    and "npm_scripts (custom_scripts st') = npm_scripts (custom_scripts st)"
    and "make_targets (custom_scripts st') = make_targets (custom_scripts st)"
    and "script_commands st \<subseteq> script_commands st'"
    and "script_commands st' \<subseteq> insert ''mise'' (script_commands st)"
  using assms
  by (auto simp: load_mise_tasks_def ebind_eq_Inr Let_def fold_default_mise_task split: if_splits)

lemma validation_command_frame:
  assumes "validation_command kv st = Inr st'"
  shows "script_commands st' = script_commands st \<and> custom_scripts st' = custom_scripts st \<and>
         custom_commands st \<subseteq> custom_commands st'"
  using assms
  by (auto simp: validation_command_def ebind_eq_Inr split: pyval.splits if_splits)

lemma foldE_frame:
  assumes step: "\<And>x s s'. f x s = Inr s' \<Longrightarrow>
                  script_commands s' = script_commands s \<and> custom_scripts s' = custom_scripts s \<and>
                  custom_commands s \<subseteq> custom_commands s'"
    and run: "foldE f xs st = Inr st'"
  shows "script_commands st' = script_commands st \<and> custom_scripts st' = custom_scripts st \<and>
         custom_commands st \<subseteq> custom_commands st'"
  using run
proof (induction xs arbitrary: st)
  case Nil
  then show ?case by simp
next
  case (Cons x xs)
  then obtain s where a: "f x st = Inr s" and b: "foldE f xs s = Inr st'"
    by (auto split: sum.splits)
  show ?case using step [OF a] Cons.IH [OF b] by auto
qed

lemma validation_category_frame:
  assumes "validation_category kv st = Inr st'"
  shows "script_commands st' = script_commands st \<and> custom_scripts st' = custom_scripts st \<and>
         custom_commands st \<subseteq> custom_commands st'"
proof (cases "snd kv")
  case (PDict commands)
  then have "foldE validation_command commands st = Inr st'"
    using assms by (simp add: validation_category_def)
  then show ?thesis
    by (rule foldE_frame [rotated]) (rule validation_command_frame)
qed (use assms in \<open>simp_all add: validation_category_def\<close>)

lemma load_validation_commands_frame:
  assumes "load_validation_commands data st = Inr st'"
  shows "script_commands st' = script_commands st \<and> custom_scripts st' = custom_scripts st \<and>
         custom_commands st \<subseteq> custom_commands st'"
proof -
  obtain items where "foldE validation_category items st = Inr st'"
    using assms by (auto simp: load_validation_commands_def ebind_eq_Inr)
  then show ?thesis
    by (rule foldE_frame [rotated]) (rule validation_category_frame)
qed

lemma merge_defaults_frame:
  assumes "merge_defaults data st = Inr st'"
  shows "custom_commands st \<subseteq> custom_commands st'"
    and "script_commands st \<subseteq> script_commands st'"
    and "script_commands st' \<subseteq> insert ''make'' (insert ''mise'' (script_commands st))"
    and "npm_scripts (custom_scripts st') = npm_scripts (custom_scripts st)"
    and "make_targets (custom_scripts st') \<noteq> [] \<Longrightarrow>
           ''make'' \<in> script_commands st' \<or> make_targets (custom_scripts st) \<noteq> []"
proof -
  obtain custom st1 st2 where a: "load_make_targets custom st = Inr st1"
    and b: "load_mise_tasks custom st1 = Inr st2"
    and c: "load_validation_commands data st2 = Inr st'"
    using assms by (auto simp: merge_defaults_def ebind_eq_Inr)
  note fa = load_make_targets_frame [OF a]
  note fb = load_mise_tasks_frame [OF b]
  note fc = load_validation_commands_frame [OF c]
  show "custom_commands st \<subseteq> custom_commands st'"
    using fa(1) fb(1) fc by simp
  show "script_commands st \<subseteq> script_commands st'"
    using fa(3) fb(4) fc by auto
  show "script_commands st' \<subseteq> insert ''make'' (insert ''mise'' (script_commands st))"
    using fa(4) fb(5) fc by auto
  show "npm_scripts (custom_scripts st') = npm_scripts (custom_scripts st)"
    using fa(2) fb(2) fc by simp
  show "''make'' \<in> script_commands st' \<or> make_targets (custom_scripts st) \<noteq> []"
    if "make_targets (custom_scripts st') \<noteq> []"
  proof -
    have "make_targets (custom_scripts st1) \<noteq> []"
      using that fb(3) fc by simp
    then have "''make'' \<in> script_commands st1 \<or> make_targets (custom_scripts st) \<noteq> []"
      using fa(5) by blast
    then show ?thesis using fb(4) fc by auto
  qed
qed

lemma load_security_defaults_frame:
  assumes "load_security_defaults p st = Inr st'"
  shows "custom_commands st \<subseteq> custom_commands st'"
    and "script_commands st \<subseteq> script_commands st'"
    and "script_commands st' \<subseteq> insert ''make'' (insert ''mise'' (script_commands st))"
    and "npm_scripts (custom_scripts st') = npm_scripts (custom_scripts st)"
    and "make_targets (custom_scripts st') \<noteq> [] \<Longrightarrow>
           ''make'' \<in> script_commands st' \<or> make_targets (custom_scripts st) \<noteq> []"
proof -
  have "st' = st \<or> (\<exists>data. merge_defaults data st = Inr st')"
    using assms
    by (auto simp: load_security_defaults_def split: defaults_file.splits if_splits)
  then show "custom_commands st \<subseteq> custom_commands st'"
    and "script_commands st \<subseteq> script_commands st'"
    and "script_commands st' \<subseteq> insert ''make'' (insert ''mise'' (script_commands st))"
    and "npm_scripts (custom_scripts st') = npm_scripts (custom_scripts st)"
    and "make_targets (custom_scripts st') \<noteq> [] \<Longrightarrow>
           ''make'' \<in> script_commands st' \<or> make_targets (custom_scripts st) \<noteq> []"
    using merge_defaults_frame by blast+
qed

lemma gathered_frame:
  assumes "gathered p = Inr st"
  shows "\<exists>st1. detect_npm_scripts p init = Inr st1 \<and>
           npm_scripts (custom_scripts st) = npm_scripts (custom_scripts st1) \<and>
           script_commands st1 \<subseteq> script_commands st \<and>
           script_commands st \<subseteq> script_commands st1 \<union> insert ''make'' (range ((@) ''./'')) \<and>
           (make_targets (custom_scripts st) \<noteq> [] \<longrightarrow> ''make'' \<in> script_commands st)"
proof -
  obtain st1 st3 where a: "detect_npm_scripts p init = Inr st1"
    and b: "detect_poetry_scripts p (detect_makefile_targets p st1) = Inr st3"
    and c: "st = load_custom_allowlist p (detect_shell_scripts p st3)"
    using assms by (auto simp: gathered_def detect_custom_scripts_def ebind_eq_Inr)
  define st2 where "st2 = detect_makefile_targets p st1"
  note fa = detect_npm_scripts_frame [OF a]
  note fm = detect_makefile_targets_frame [where p = p and st = st1, folded st2_def]
  note fb = detect_poetry_scripts_frame [OF b, folded st2_def]
  have m1: "make_targets (custom_scripts st1) = []"
    using fa(3) by (simp add: init_def)
  have n: "npm_scripts (custom_scripts st) = npm_scripts (custom_scripts st1)"
    unfolding c by (simp add: load_custom_allowlist_frame detect_shell_scripts_simps fb(3) fm(2))
  have s: "script_commands st =
             (\<lambda>n. ''./'' @ n) ` (set (sh_files p) \<union> set (bash_files p)) \<union> script_commands st2"
    unfolding c by (simp add: load_custom_allowlist_frame detect_shell_scripts_simps fb(1))
  have lo: "script_commands st1 \<subseteq> script_commands st"
    using fm(3) unfolding s by blast
  have hi: "script_commands st \<subseteq> script_commands st1 \<union> insert ''make'' (range ((@) ''./''))"
    using fm(4) unfolding s by blast
  have t: "make_targets (custom_scripts st) = make_targets (custom_scripts st2)"
    unfolding c by (simp add: load_custom_allowlist_frame detect_shell_scripts_simps fb(4))
  have mk: "make_targets (custom_scripts st) \<noteq> [] \<longrightarrow> ''make'' \<in> script_commands st"
  proof
    assume "make_targets (custom_scripts st) \<noteq> []"
    then have "make_targets (custom_scripts st2) \<noteq> []" by (simp add: t)
    then have "''make'' \<in> script_commands st2"
      using detect_makefile_targets_make [where p = p and st = st1, folded st2_def] m1 by blast
    then show "''make'' \<in> script_commands st" unfolding s by blast
  qed
  show ?thesis using a n lo hi mk by blast
qed

lemma analyze_frame:
  assumes "analyze p = Inr (cs, sc, cc)"
  shows "\<exists>st1. detect_npm_scripts p init = Inr st1 \<and>
           npm_scripts cs = npm_scripts (custom_scripts st1) \<and>
           script_commands st1 \<subseteq> sc \<and>
           sc \<subseteq> script_commands st1 \<union> insert ''make'' (insert ''mise'' (range ((@) ''./''))) \<and>
           (make_targets cs \<noteq> [] \<longrightarrow> ''make'' \<in> sc)"
proof -
  obtain st st' where g: "gathered p = Inr st"
    and d: "load_security_defaults p st = Inr st'"
    and r: "cs = custom_scripts st'" "sc = script_commands st'" "cc = custom_commands st'"
    using assms by (auto simp: analyze_def ebind_eq_Inr result_def)
  note fd = load_security_defaults_frame [OF d]
  from gathered_frame [OF g] obtain st1 where a: "detect_npm_scripts p init = Inr st1"
    and n: "npm_scripts (custom_scripts st) = npm_scripts (custom_scripts st1)"
    and lo: "script_commands st1 \<subseteq> script_commands st"
    and hi: "script_commands st \<subseteq> script_commands st1 \<union> insert ''make'' (range ((@) ''./''))"
    and mk: "make_targets (custom_scripts st) \<noteq> [] \<longrightarrow> ''make'' \<in> script_commands st"
    by blast
  have 1: "npm_scripts cs = npm_scripts (custom_scripts st1)"
    by (simp add: r fd(4) n)
  have 2: "script_commands st1 \<subseteq> sc"
    unfolding r using lo fd(2) by blast
  have 3: "sc \<subseteq> script_commands st1 \<union> insert ''make'' (insert ''mise'' (range ((@) ''./'')))"
    unfolding r using hi fd(3) by blast
  have 4: "make_targets cs \<noteq> [] \<longrightarrow> ''make'' \<in> sc"
    unfolding r using fd(5) fd(2) mk by blast
  show ?thesis using a 1 2 3 4 by blast
qed

lemma detectors_ignore_defaults:
  "detect_npm_scripts (p\<lparr>security_defaults := d\<rparr>) st = detect_npm_scripts p st"
  "detect_makefile_targets (p\<lparr>security_defaults := d\<rparr>) st = detect_makefile_targets p st"
  "detect_poetry_scripts (p\<lparr>security_defaults := d\<rparr>) st = detect_poetry_scripts p st"
  "detect_shell_scripts (p\<lparr>security_defaults := d\<rparr>) st = detect_shell_scripts p st"
  "load_custom_allowlist (p\<lparr>security_defaults := d\<rparr>) st = load_custom_allowlist p st"
  by (simp_all add: detect_npm_scripts_def detect_makefile_targets_def
      detect_poetry_scripts_def detect_shell_scripts_def load_custom_allowlist_def
      cong: if_cong)

lemma gathered_ignores_defaults:
  "gathered (p\<lparr>security_defaults := d\<rparr>) = gathered p"
  by (simp add: gathered_def detect_custom_scripts_def detectors_ignore_defaults)

lemma launcher_not_other:
  "c \<in> {''npm'', ''yarn'', ''pnpm'', ''bun''} \<Longrightarrow>
   c \<notin> insert ''make'' (insert ''mise'' (range ((@) ''./'')))"
  by auto

lemma detect_npm_init:
  assumes "detect_npm_scripts p init = Inr st1"
  shows "npm_scripts (custom_scripts st1) \<noteq> [] \<longrightarrow>
           {''npm'', ''yarn'', ''pnpm'', ''bun''} \<subseteq> script_commands st1"
    and "npm_scripts (custom_scripts st1) = [] \<longrightarrow> script_commands st1 = {}"
  using detect_npm_scripts_cases [OF assms]
  by (auto simp: fold_add_launchers init_def)

lemmas step_defs =
  analyze_def gathered_def result_def init_def detect_custom_scripts_def detect_npm_scripts_def
  detect_makefile_targets_def detect_poetry_scripts_def detect_shell_scripts_def
  load_custom_allowlist_def load_security_defaults_def merge_defaults_def
  load_make_targets_def load_mise_tasks_def load_validation_commands_def
  validation_category_def validation_command_def base_command_def
  poetry_section_def pep621_section_def has_path_def
  makefile_line_def allowlist_line_def default_make_target_def default_mise_task_def
  add_launchers_def add_script_command_def add_custom_command_def set_npm_scripts_def
  set_poetry_scripts_def append_make_target_def append_mise_task_def add_shell_script_def
  list_contains_def startswith_def

lemmas string_defs =
  splitlines_def linebreak_def py_split_def py_strip_def isspace_def match_target_def
  ident_start_def ident_char_def is_alpha_def is_digit_def

section \<open>Claims about resolution\<close>

text \<open>
  C1. A validation command that is empty or holds only white space should be skipped
  without an exception. The empty string is skipped. A string of spaces is not: it is
  not empty, \<open>cmd.split()\<close> is the empty list, and \<open>cmd.split()[0]\<close> raises
  \<open>IndexError\<close>, which nothing catches, so resolution of a project whose defaults are
  \<open>{"validation_commands": {"go": {"build": "   "}}}\<close> raises instead of returning.
\<close>

theorem blank_validation_command_raises:
  "validation_command (k, PStr []) st = Inr st \<and>
   base_command ''   '' = Inl IndexError \<and>
   validation_command (k, PStr ''   '') st = Inl IndexError \<and>
   analyze blank_command = Inl IndexError"
proof (intro conjI)
  show "validation_command (k, PStr []) st = Inr st"
    by (simp add: validation_command_def base_command_def)
  show b: "base_command ''   '' = Inl IndexError"
    by (simp add: base_command_def py_split_def isspace_def)
  show "validation_command (k, PStr ''   '') st = Inl IndexError"
    by (simp add: validation_command_def b)
  show "analyze blank_command = Inl IndexError"
    by (simp add: blank_command_def no_files_def step_defs string_defs)
qed

text \<open>
  C2, as stated, fails for the task-runner catalog: with a \<open>pyproject.toml\<close> that
  declares the Poetry script \<open>serve\<close>, resolution returns the catalog entry \<open>serve\<close>
  and an empty set of script commands.
\<close>

theorem poetry_scripts_add_no_launcher:
  "analyze poetry_project = Inr (empty_catalog\<lparr>poetry_scripts := [''serve'']\<rparr>, {}, {}) \<and>
   poetry_scripts (empty_catalog\<lparr>poetry_scripts := [''serve'']\<rparr>) \<noteq> []"
  by (simp add: poetry_project_def no_files_def empty_catalog_def step_defs string_defs)

text \<open>
  C2, amended. When resolution returns: a non-empty package-manager catalog implies that
  \<open>npm\<close>, \<open>yarn\<close>, \<open>pnpm\<close> and \<open>bun\<close> are script commands, and a non-empty build-target
  catalog implies that \<open>make\<close> is one. The \<open>pyproject.toml\<close> detector leaves the script
  commands as they are.
\<close>

theorem catalog_implies_launcher:
  assumes "analyze p = Inr (cs, sc, cc)"
  shows "(npm_scripts cs \<noteq> [] \<longrightarrow> {''npm'', ''yarn'', ''pnpm'', ''bun''} \<subseteq> sc) \<and>
         (make_targets cs \<noteq> [] \<longrightarrow> ''make'' \<in> sc) \<and>
         (detect_poetry_scripts p st = Inr st' \<longrightarrow> script_commands st' = script_commands st)"
proof -
  from analyze_frame [OF assms] obtain st1 where a: "detect_npm_scripts p init = Inr st1"
    and n: "npm_scripts cs = npm_scripts (custom_scripts st1)"
    and lo: "script_commands st1 \<subseteq> sc"
    and mk: "make_targets cs \<noteq> [] \<longrightarrow> ''make'' \<in> sc"
    by blast
  have "npm_scripts cs \<noteq> [] \<longrightarrow> {''npm'', ''yarn'', ''pnpm'', ''bun''} \<subseteq> sc"
    using detect_npm_init(1) [OF a] n lo by auto
  moreover have "detect_poetry_scripts p st = Inr st' \<longrightarrow> script_commands st' = script_commands st"
    by (simp add: detect_poetry_scripts_frame(1))
  ultimately show ?thesis using mk by blast
qed

theorem catalog_implies_launcher_witness:
  "analyze npm_project =
     Inr (empty_catalog\<lparr>npm_scripts := [''build'', ''test''], make_targets := [PStr ''all'']\<rparr>,
          {''npm'', ''yarn'', ''pnpm'', ''bun'', ''make''}, {}) \<and>
   {''npm'', ''yarn'', ''pnpm'', ''bun''} \<subseteq> {''npm'', ''yarn'', ''pnpm'', ''bun'', ''make''} \<and>
   ''make'' \<in> {''npm'', ''yarn'', ''pnpm'', ''bun'', ''make''}"
proof -
  have e: "analyze npm_project =
     Inr (empty_catalog\<lparr>npm_scripts := [''build'', ''test''], make_targets := [PStr ''all'']\<rparr>,
          {''npm'', ''yarn'', ''pnpm'', ''bun'', ''make''}, {})"
    by (simp add: npm_project_def no_files_def empty_catalog_def step_defs string_defs
        insert_commute)
  show ?thesis
    using catalog_implies_launcher [OF e] e by (simp add: empty_catalog_def)
qed

text \<open>
  C3, as stated, fails: for the Makefile of the specification the build targets are not
  \<open>build\<close>, \<open>test\<close>, \<open>lint\<close>.
\<close>

theorem makefile_example_not_three_targets:
  "make_targets (fst (projr (analyze makefile_example))) \<noteq>
     [PStr ''build'', PStr ''test'', PStr ''lint'']"
  by (simp add: makefile_example_def makefile_example_text_def no_files_def step_defs
      string_defs)

text \<open>
  C3, amended. For that Makefile resolution returns the build targets \<open>build\<close> and
  \<open>lint\<close>, and \<open>make\<close> is a script command: the pattern is matched at the first
  character of a line, so the indented \<open>test: build\<close> is no target, nor are the
  \<open>.PHONY\<close> line and the recipe line.
\<close>

theorem makefile_example_targets:
  "analyze makefile_example =
     Inr (empty_catalog\<lparr>make_targets := [PStr ''build'', PStr ''lint'']\<rparr>, {''make''}, {}) \<and>
   match_target ''  test: build'' = None \<and>
   match_target ''test: build'' = Some ''test''"
  by (simp add: makefile_example_def makefile_example_text_def no_files_def empty_catalog_def
      step_defs string_defs)

text \<open>
  C4. A defaults file that exists but is malformed (for example truncated) or cannot be
  read should change nothing and raise nothing, as if it were absent. This holds when
  reading the file raises \<open>JSONDecodeError\<close> or \<open>OSError\<close>: the handler catches both,
  the defaults step returns the state it was given, and resolution is what it is without
  the file. It fails for a file that was cut off inside a multi-byte character: reading
  it raises \<open>UnicodeDecodeError\<close>, which the handler does not catch, and resolution
  raises although without the file it returns the Makefile's targets. The same happens
  with the \<open>RecursionError\<close> of a deeply nested text and with an \<open>OSError\<close> from
  \<open>exists()\<close>, which is outside the \<open>try\<close> statement.
\<close>

theorem truncated_defaults_raise:
  "load_security_defaults (p\<lparr>security_defaults := LoadRaises JSONDecodeError\<rparr>) st = Inr st \<and>
   load_security_defaults (p\<lparr>security_defaults := LoadRaises OSError\<rparr>) st = Inr st \<and>
   analyze (p\<lparr>security_defaults := LoadRaises JSONDecodeError\<rparr>) =
     analyze (p\<lparr>security_defaults := Absent\<rparr>) \<and>
   analyze (p\<lparr>security_defaults := LoadRaises OSError\<rparr>) =
     analyze (p\<lparr>security_defaults := Absent\<rparr>) \<and>
   load_security_defaults (p\<lparr>security_defaults := LoadRaises UnicodeDecodeError\<rparr>) st =
     Inl UnicodeDecodeError \<and>
   load_security_defaults (p\<lparr>security_defaults := LoadRaises RecursionError\<rparr>) st =
     Inl RecursionError \<and>
   load_security_defaults (p\<lparr>security_defaults := ExistsRaises\<rparr>) st = Inl OSError \<and>
   analyze truncated_defaults = Inl UnicodeDecodeError \<and>
   analyze (truncated_defaults\<lparr>security_defaults := Absent\<rparr>) =
     Inr (empty_catalog\<lparr>make_targets := [PStr ''build'', PStr ''lint'']\<rparr>, {''make''}, {})"
proof (intro conjI)
  show "load_security_defaults (p\<lparr>security_defaults := LoadRaises JSONDecodeError\<rparr>) st = Inr st"
    and "load_security_defaults (p\<lparr>security_defaults := LoadRaises OSError\<rparr>) st = Inr st"
    and "load_security_defaults (p\<lparr>security_defaults := LoadRaises UnicodeDecodeError\<rparr>) st =
           Inl UnicodeDecodeError"
    and "load_security_defaults (p\<lparr>security_defaults := LoadRaises RecursionError\<rparr>) st =
           Inl RecursionError"
    and "load_security_defaults (p\<lparr>security_defaults := ExistsRaises\<rparr>) st = Inl OSError"
    by (simp_all add: load_security_defaults_def caught_def)
  show "analyze (p\<lparr>security_defaults := LoadRaises JSONDecodeError\<rparr>) =
          analyze (p\<lparr>security_defaults := Absent\<rparr>)"
    and "analyze (p\<lparr>security_defaults := LoadRaises OSError\<rparr>) =
          analyze (p\<lparr>security_defaults := Absent\<rparr>)"
    by (simp_all add: analyze_def gathered_ignores_defaults load_security_defaults_def
        caught_def)
  show "analyze truncated_defaults = Inl UnicodeDecodeError"
    by (simp add: truncated_defaults_def makefile_example_def makefile_example_text_def
        no_files_def caught_def step_defs string_defs)
  show "analyze (truncated_defaults\<lparr>security_defaults := Absent\<rparr>) =
     Inr (empty_catalog\<lparr>make_targets := [PStr ''build'', PStr ''lint'']\<rparr>, {''make''}, {})"
    by (simp add: truncated_defaults_def makefile_example_def makefile_example_text_def
        no_files_def empty_catalog_def step_defs string_defs)
qed

text \<open>
  C5. Whatever the defaults file holds, if resolution returns with it, then resolution
  returns without it as well, and the script commands and custom commands without the
  file are subsets of those with it.
\<close>

theorem defaults_only_add:
  assumes "analyze (p\<lparr>security_defaults := d\<rparr>) = Inr (cs, sc, cc)"
  shows "\<exists>cs0 sc0 cc0. analyze (p\<lparr>security_defaults := Absent\<rparr>) = Inr (cs0, sc0, cc0) \<and>
           sc0 \<subseteq> sc \<and> cc0 \<subseteq> cc"
proof -
  obtain st st' where g: "gathered p = Inr st"
    and l: "load_security_defaults (p\<lparr>security_defaults := d\<rparr>) st = Inr st'"
    and r: "sc = script_commands st'" "cc = custom_commands st'"
    using assms by (auto simp: analyze_def gathered_ignores_defaults ebind_eq_Inr result_def)
  have "analyze (p\<lparr>security_defaults := Absent\<rparr>) =
          Inr (custom_scripts st, script_commands st, custom_commands st)"
    by (simp add: analyze_def gathered_ignores_defaults g load_security_defaults_def result_def)
  moreover have "script_commands st \<subseteq> sc" "custom_commands st \<subseteq> cc"
    unfolding r using load_security_defaults_frame(1,2) [OF l] by blast+
  ultimately show ?thesis by blast
qed

theorem defaults_only_add_witness:
  "analyze defaults_project =
     Inr (empty_catalog\<lparr>make_targets := [PStr ''build''], mise_tasks := [PStr ''lint'']\<rparr>,
          {''make'', ''mise''}, {''docker'', ''go''}) \<and>
   analyze (defaults_project\<lparr>security_defaults := Absent\<rparr>) =
     Inr (empty_catalog, {}, {''docker''}) \<and>
   (\<exists>cs0 sc0 cc0. analyze (defaults_project\<lparr>security_defaults := Absent\<rparr>) = Inr (cs0, sc0, cc0) \<and>
      sc0 \<subseteq> {''make'', ''mise''} \<and> cc0 \<subseteq> {''docker'', ''go''})"
proof -
  have e: "analyze (defaults_project\<lparr>security_defaults := security_defaults defaults_project\<rparr>) =
     Inr (empty_catalog\<lparr>make_targets := [PStr ''build''], mise_tasks := [PStr ''lint'']\<rparr>,
          {''make'', ''mise''}, {''docker'', ''go''})"
    by (simp add: defaults_project_def no_files_def empty_catalog_def step_defs string_defs
        insert_commute)
  have a: "analyze (defaults_project\<lparr>security_defaults := Absent\<rparr>) =
     Inr (empty_catalog, {}, {''docker''})"
    by (simp add: defaults_project_def no_files_def empty_catalog_def step_defs string_defs)
  show ?thesis
    using defaults_only_add [OF e] e a by simp
qed

text \<open>
  C6. When \<open>package.json\<close> parses to an object whose \<open>scripts\<close> is an object with at least
  one key, the package-manager detector returns, the catalog is the list of the keys of
  \<open>scripts\<close> in their order, and \<open>npm\<close>, \<open>yarn\<close>, \<open>pnpm\<close> and \<open>bun\<close> are script commands;
  both still hold of what resolution returns.
\<close>

theorem npm_scripts_detected:
  assumes "package_json p = Some (PDict kvs)"
    and "map_of kvs ''scripts'' = Some (PDict ss)"
    and "ss \<noteq> []"
  shows "(\<exists>st'. detect_npm_scripts p st = Inr st' \<and>
            npm_scripts (custom_scripts st') = map fst ss \<and>
            {''npm'', ''yarn'', ''pnpm'', ''bun''} \<subseteq> script_commands st') \<and>
         (analyze p = Inr (cs, sc, cc) \<longrightarrow>
            npm_scripts cs = map fst ss \<and> {''npm'', ''yarn'', ''pnpm'', ''bun''} \<subseteq> sc)"
proof -
  have k: "''scripts'' \<in> fst ` set kvs" "kvs \<noteq> []"
    using assms(2) by (auto dest: map_of_SomeD intro: rev_image_eqI)
  have d: "detect_npm_scripts p s =
             Inr (fold (\<lambda>script. add_launchers) (map fst ss) (set_npm_scripts (map fst ss) s))"
    for s
    using assms(1,2) k by (simp add: detect_npm_scripts_def)
  have 1: "\<exists>st'. detect_npm_scripts p st = Inr st' \<and>
            npm_scripts (custom_scripts st') = map fst ss \<and>
            {''npm'', ''yarn'', ''pnpm'', ''bun''} \<subseteq> script_commands st'"
    using assms(3) by (simp add: d fold_add_launchers)
  have 2: "npm_scripts cs = map fst ss \<and> {''npm'', ''yarn'', ''pnpm'', ''bun''} \<subseteq> sc"
    if "analyze p = Inr (cs, sc, cc)"
  proof -
    from analyze_frame [OF that] obtain st1 where a: "detect_npm_scripts p init = Inr st1"
      and n: "npm_scripts cs = npm_scripts (custom_scripts st1)"
      and lo: "script_commands st1 \<subseteq> sc"
      by blast
    have "st1 = fold (\<lambda>script. add_launchers) (map fst ss) (set_npm_scripts (map fst ss) init)"
      using a by (simp add: d)
    then have "npm_scripts (custom_scripts st1) = map fst ss"
      and "{''npm'', ''yarn'', ''pnpm'', ''bun''} \<subseteq> script_commands st1"
      using assms(3) by (simp_all add: fold_add_launchers)
    then show ?thesis using n lo by auto
  qed
  show ?thesis using 1 2 by blast
qed

theorem npm_scripts_detected_witness:
  "analyze npm_project =
     Inr (empty_catalog\<lparr>npm_scripts := [''build'', ''test''], make_targets := [PStr ''all'']\<rparr>,
          {''npm'', ''yarn'', ''pnpm'', ''bun'', ''make''}, {}) \<and>
   map fst [(''build'', PStr ''tsc''), (''test'', PStr ''jest'')] = [''build'', ''test''] \<and>
   (\<exists>st'. detect_npm_scripts npm_project init = Inr st' \<and>
      npm_scripts (custom_scripts st') = [''build'', ''test''])"
proof -
  have e: "analyze npm_project =
     Inr (empty_catalog\<lparr>npm_scripts := [''build'', ''test''], make_targets := [PStr ''all'']\<rparr>,
          {''npm'', ''yarn'', ''pnpm'', ''bun'', ''make''}, {})"
    by (simp add: npm_project_def no_files_def empty_catalog_def step_defs string_defs
        insert_commute)
  have p: "package_json npm_project =
     Some (PDict [(''name'', PStr ''app''),
                  (''scripts'', PDict [(''build'', PStr ''tsc''), (''test'', PStr ''jest'')])])"
    by (simp add: npm_project_def no_files_def)
  have m: "map_of [(''name'', PStr ''app''),
                   (''scripts'', PDict [(''build'', PStr ''tsc''), (''test'', PStr ''jest'')])]
             ''scripts'' = Some (PDict [(''build'', PStr ''tsc''), (''test'', PStr ''jest'')])"
    by simp
  have n: "[(''build'', PStr ''tsc''), (''test'', PStr ''jest'')] \<noteq> []" by simp
  have "\<exists>st'. detect_npm_scripts npm_project init = Inr st' \<and>
          npm_scripts (custom_scripts st') =
            map fst [(''build'', PStr ''tsc''), (''test'', PStr ''jest'')] \<and>
          {''npm'', ''yarn'', ''pnpm'', ''bun''} \<subseteq> script_commands st'"
    using npm_scripts_detected [OF p m n, where st = init] by (rule conjunct1)
  then have "\<exists>st'. detect_npm_scripts npm_project init = Inr st' \<and>
          npm_scripts (custom_scripts st') = [''build'', ''test'']"
    by auto
  then show ?thesis using e by simp
qed

text \<open>
  C8. When \<open>package.json\<close> parses to an object whose \<open>scripts\<close> is the empty object, the
  package-manager detector sets the catalog to the empty list and leaves the script
  commands as they are, and what resolution returns has an empty package-manager catalog
  and none of \<open>npm\<close>, \<open>yarn\<close>, \<open>pnpm\<close>, \<open>bun\<close> among the script commands.
\<close>

theorem empty_scripts_add_no_launcher:
  assumes "package_json p = Some (PDict kvs)"
    and "map_of kvs ''scripts'' = Some (PDict [])"
  shows "detect_npm_scripts p st = Inr (set_npm_scripts [] st) \<and>
         script_commands (set_npm_scripts [] st) = script_commands st \<and>
         (analyze p = Inr (cs, sc, cc) \<longrightarrow>
            npm_scripts cs = [] \<and>
            ''npm'' \<notin> sc \<and> ''yarn'' \<notin> sc \<and> ''pnpm'' \<notin> sc \<and> ''bun'' \<notin> sc)"
proof -
  have k: "''scripts'' \<in> fst ` set kvs" "kvs \<noteq> []"
    using assms(2) by (auto dest: map_of_SomeD intro: rev_image_eqI)
  have d: "detect_npm_scripts p s = Inr (set_npm_scripts [] s)" for s
    using assms k by (simp add: detect_npm_scripts_def)
  have 2: "npm_scripts cs = [] \<and>
           ''npm'' \<notin> sc \<and> ''yarn'' \<notin> sc \<and> ''pnpm'' \<notin> sc \<and> ''bun'' \<notin> sc"
    if "analyze p = Inr (cs, sc, cc)"
  proof -
    from analyze_frame [OF that] obtain st1 where a: "detect_npm_scripts p init = Inr st1"
      and n: "npm_scripts cs = npm_scripts (custom_scripts st1)"
      and hi: "sc \<subseteq> script_commands st1 \<union>
                    insert ''make'' (insert ''mise'' (range ((@) ''./'')))"
      by blast
    have s: "st1 = set_npm_scripts [] init" using a by (simp add: d)
    have "script_commands st1 = {}" by (simp add: s init_def)
    then have "sc \<subseteq> insert ''make'' (insert ''mise'' (range ((@) ''./'')))"
      using hi by simp
    then have "c \<notin> sc" if "c \<in> {''npm'', ''yarn'', ''pnpm'', ''bun''}" for c
      using launcher_not_other [OF that] by blast
    then show ?thesis using n by (simp add: s)
  qed
  show ?thesis using d 2 by simp
qed

theorem empty_scripts_add_no_launcher_witness:
  "analyze empty_scripts_project =
     Inr (empty_catalog\<lparr>make_targets := [PStr ''all''], shell_scripts := [''run.sh'']\<rparr>,
          {''make'', ''./run.sh''}, {}) \<and>
   detect_npm_scripts empty_scripts_project init = Inr (set_npm_scripts [] init) \<and>
   ''npm'' \<notin> {''make'', ''./run.sh''}"
proof -
  have e: "analyze empty_scripts_project =
     Inr (empty_catalog\<lparr>make_targets := [PStr ''all''], shell_scripts := [''run.sh'']\<rparr>,
          {''make'', ''./run.sh''}, {})"
    by (simp add: empty_scripts_project_def no_files_def empty_catalog_def step_defs
        string_defs insert_commute)
  have p: "package_json empty_scripts_project =
             Some (PDict [(''name'', PStr ''app''), (''scripts'', PDict [])])"
    by (simp add: empty_scripts_project_def no_files_def)
  have m: "map_of [(''name'', PStr ''app''), (''scripts'', PDict [])] ''scripts'' =
             Some (PDict [])"
    by simp
  show ?thesis
    using empty_scripts_add_no_launcher [OF p m, where st = init] e by simp
qed

end
